theory Spec2Isabelle
  imports Complex_Main "HOL-Library.Multiset"
begin

section \<open>Exceptions\<close>

text \<open>
  Every exception the modelled Python code can raise is a value of this type; a function
  that may raise returns \<open>error + 'a\<close>, with \<open>Inl\<close> carrying the exception.
\<close>

datatype error =
    NotImplementedError
  | ZeroDivisionError
  | ValueError
  | IndexError
  | AssertionError
  | AttributeError
  | RuntimeError
  | StopIteration
  | FileNotFoundError
  | KeyboardInterrupt

section \<open>utils/tensorloader.py\<close>

subsection \<open>CustomTensorData\<close>

text \<open>
  The three tensors of a dataset are kept as lists of windows along the leading dimension;
  a window itself (a matrix of floats) is opaque here, so its type is a parameter. The
  constructor of the source does not compare the three leading dimensions, and neither
  does the record.
\<close>

record ('a, 'b, 'c) CustomTensorData =
  inputs1 :: "'a list"
  inputs2 :: "'b list"
  targets :: "'c list"

text \<open>\<open>__len__\<close>: the leading dimension of the targets.\<close>

definition data_len :: "('a, 'b, 'c) CustomTensorData \<Rightarrow> nat" where
  "data_len d = length (targets d)"

text \<open>
  Indexing a tensor along its leading dimension with an array of (non-negative) indices:
  an index outside the tensor raises IndexError.
\<close>

definition index_rows :: "'a list \<Rightarrow> nat list \<Rightarrow> error + 'a list" where
  "index_rows xs idx =
     (if list_all (\<lambda>i. i < length xs) idx then Inr (map (\<lambda>i. xs ! i) idx)
      else Inl IndexError)"

text \<open>\<open>__getitem__\<close>: the three tensors are indexed in the order of the source.\<close>

definition data_getitem ::
  "('a, 'b, 'c) CustomTensorData \<Rightarrow> nat list \<Rightarrow> error + ('a list \<times> 'b list \<times> 'c list)" where
  "data_getitem d idx =
     (case index_rows (inputs1 d) idx of
        Inl e \<Rightarrow> Inl e
      | Inr a \<Rightarrow>
          (case index_rows (inputs2 d) idx of
             Inl e \<Rightarrow> Inl e
           | Inr b \<Rightarrow>
               (case index_rows (targets d) idx of
                  Inl e \<Rightarrow> Inl e
                | Inr c \<Rightarrow> Inr (a, b, c))))"

subsection \<open>CustomTensorDataLoader\<close>

text \<open>
  The attributes \<open>permutation\<close> and \<open>batch_index\<close> exist only once \<open>__iter__\<close> has
  run; before that they are \<open>None\<close> and reading them is an AttributeError.
\<close>

record ('a, 'b, 'c) CustomTensorDataLoader =
  dataset :: "('a, 'b, 'c) CustomTensorData"
  batch_size :: int
  shuffle :: bool
  drop_last :: bool
  permutation :: "nat list list option"
  batch_index :: "nat option"

text \<open>\<open>__init__\<close>: the guard on \<open>drop_last\<close> comes before any attribute is set.\<close>

definition loader_init ::
  "('a, 'b, 'c) CustomTensorData \<Rightarrow> int \<Rightarrow> bool \<Rightarrow> bool \<Rightarrow>
     error + ('a, 'b, 'c) CustomTensorDataLoader" where
  "loader_init ds bs sh dl =
     (if \<not> dl then Inl NotImplementedError
      else Inr \<lparr>dataset = ds, batch_size = bs, shuffle = sh, drop_last = dl,
                permutation = None, batch_index = None\<rparr>)"

text \<open>
  \<open>__len__\<close>, as the builtin \<open>len\<close> calls it: floor division of the dataset length by
  the batch size (ZeroDivisionError for a batch size of zero); \<open>len\<close> refuses a negative
  result with ValueError.
\<close>

definition loader_len :: "('a, 'b, 'c) CustomTensorDataLoader \<Rightarrow> error + nat" where
  "loader_len l =
     (if batch_size l = 0 then Inl ZeroDivisionError
      else (let r = int (data_len (dataset l)) div batch_size l
            in if r < 0 then Inl ValueError else Inr (nat r)))"

text \<open>
  \<open>np.reshape\<close> of a one-dimensional array to two dimensions \<open>(rows, cols)\<close>, row-major.
  A single \<open>-1\<close> is inferred; any other negative dimension, or a size that does not fit,
  is a ValueError.
\<close>

definition chunks :: "'a list \<Rightarrow> nat \<Rightarrow> nat \<Rightarrow> 'a list list" where
  "chunks xs rows cols = map (\<lambda>i. take cols (drop (i * cols) xs)) [0..<rows]"

definition np_reshape :: "'a list \<Rightarrow> nat \<Rightarrow> int \<Rightarrow> error + 'a list list" where
  "np_reshape xs rows cols =
     (if cols = -1 then
        (if rows = 0 \<or> length xs mod rows \<noteq> 0 then Inl ValueError
         else Inr (chunks xs rows (length xs div rows)))
      else if cols < 0 then Inl ValueError
      else if length xs \<noteq> rows * nat cols then Inl ValueError
      else Inr (chunks xs rows (nat cols)))"

text \<open>
  \<open>__iter__\<close>. The argument \<open>p\<close> is the array that \<open>np.random.permutation(len(dataset))\<close>
  returns on this call (a permutation of \<open>0..<N\<close> drawn from the global generator); it is
  read only when shuffling is on.
\<close>

definition loader_iter ::
  "nat list \<Rightarrow> ('a, 'b, 'c) CustomTensorDataLoader \<Rightarrow> error + ('a, 'b, 'c) CustomTensorDataLoader" where
  "loader_iter p l =
     (if batch_size l = 0 then Inl ZeroDivisionError
      else
        (let n = batch_size l * (int (data_len (dataset l)) div batch_size l);
             perm = (if shuffle l then take (nat n) p else [0..<nat n])
         in case loader_len l of
              Inl e \<Rightarrow> Inl e
            | Inr rows \<Rightarrow>
                (case np_reshape perm rows (batch_size l) of
                   Inl e \<Rightarrow> Inl e
                 | Inr m \<Rightarrow> Inr (l\<lparr>permutation := Some m, batch_index := Some 0\<rparr>))))"

text \<open>\<open>__next__\<close>: one batch and the advanced iterator, or StopIteration.\<close>

definition loader_next ::
  "('a, 'b, 'c) CustomTensorDataLoader \<Rightarrow>
     error + (('a list \<times> 'b list \<times> 'c list) \<times> ('a, 'b, 'c) CustomTensorDataLoader)" where
  "loader_next l =
     (case batch_index l of
        None \<Rightarrow> Inl AttributeError
      | Some i \<Rightarrow>
          (case loader_len l of
             Inl e \<Rightarrow> Inl e
           | Inr n \<Rightarrow>
               if i < n then
                 (case permutation l of
                    None \<Rightarrow> Inl AttributeError
                  | Some m \<Rightarrow>
                      if i < length m then
                        (case data_getitem (dataset l) (m ! i) of
                           Inl e \<Rightarrow> Inl e
                         | Inr b \<Rightarrow> Inr (b, l\<lparr>batch_index := Some (i + 1)\<rparr>))
                      else Inl IndexError)
               else Inl StopIteration))"

text \<open>
  The number of batches still to come; it decreases with every successful \<open>__next__\<close>.
\<close>

definition remaining :: "('a, 'b, 'c) CustomTensorDataLoader \<Rightarrow> nat" where
  "remaining l =
     (case loader_len l of
        Inl e \<Rightarrow> 0
      | Inr n \<Rightarrow> (case batch_index l of None \<Rightarrow> 0 | Some i \<Rightarrow> n - i))"

lemma loader_next_remaining:
  assumes "loader_next l = Inr (b, l')"
  shows "remaining l' < remaining l"
  using assms
  by (auto simp: loader_next_def remaining_def loader_len_def Let_def
           split: option.splits sum.splits if_splits)

text \<open>
  The body of a \<open>for\<close> loop over the iterator: \<open>__next__\<close> is called until it raises
  StopIteration; any other exception ends the loop and is passed on.
\<close>

function loader_drain ::
  "('a, 'b, 'c) CustomTensorDataLoader \<Rightarrow> error + ('a list \<times> 'b list \<times> 'c list) list" where
  "loader_drain l =
     (case loader_next l of
        Inl e \<Rightarrow> (if e = StopIteration then Inr [] else Inl e)
      | Inr r \<Rightarrow>
          (case loader_drain (snd r) of
             Inl e \<Rightarrow> Inl e
           | Inr bs \<Rightarrow> Inr (fst r # bs)))"
  by pat_completeness auto
termination
proof (relation "measure remaining")
  show "wf (measure remaining)" by simp
next
  fix l :: "('a, 'b, 'c) CustomTensorDataLoader" and r
  assume "loader_next l = Inr r"
  then have "loader_next l = Inr (fst r, snd r)" by simp
  then have "remaining (snd r) < remaining l" by (rule loader_next_remaining)
  then show "(snd r, l) \<in> measure remaining" by simp
qed

declare loader_drain.simps [simp del]

text \<open>One iteration pass: \<open>for batch in loader\<close>.\<close>

definition loader_pass ::
  "nat list \<Rightarrow> ('a, 'b, 'c) CustomTensorDataLoader \<Rightarrow>
     error + ('a list \<times> 'b list \<times> 'c list) list" where
  "loader_pass p l =
     (case loader_iter p l of
        Inl e \<Rightarrow> Inl e
      | Inr l' \<Rightarrow> loader_drain l')"

text \<open>
  Two notions to state what a pass yields: the batch that the index row \<open>idx\<close> selects
  from a dataset whose tensors all hold these indices, and the index schedule of a pass
  over \<open>N\<close> windows in batches of \<open>B\<close>, written with natural numbers.
\<close>

definition gather ::
  "('a, 'b, 'c) CustomTensorData \<Rightarrow> nat list \<Rightarrow> 'a list \<times> 'b list \<times> 'c list" where
  "gather d idx =
     (map (\<lambda>i. inputs1 d ! i) idx, map (\<lambda>i. inputs2 d ! i) idx,
      map (\<lambda>i. targets d ! i) idx)"

definition schedule :: "nat list \<Rightarrow> bool \<Rightarrow> nat \<Rightarrow> nat \<Rightarrow> nat list list" where
  "schedule p sh N B =
     chunks (if sh then take (B * (N div B)) p else [0..<B * (N div B)]) (N div B) B"

subsection \<open>The function make-dataloader\<close>

text \<open>
  The data frame \<open>df\<close> is its list of rows. A column selection such as
  \<open>df[encoder_features]\<close> keeps the row count and is a function applied to every row: the
  arguments \<open>encoder_features\<close>, \<open>decoder_features\<close> and \<open>target_id\<close> are these
  functions (a missing column is outside the model). Horizons are natural numbers.
  \<open>dt.extract\<close> (module \<open>plf_util.datatuner\<close>) is not among the sources; it is the
  parameter \<open>extract\<close>, which turns a frame and a horizon into a stack of windows.
\<close>

text \<open>\<open>frame.iloc[:-k, :]\<close> for \<open>k \<ge> 0\<close>; in Python \<open>-0\<close> is \<open>0\<close>, so \<open>k = 0\<close> keeps no row.\<close>

definition iloc_until_neg :: "nat \<Rightarrow> 'r list \<Rightarrow> 'r list" where
  "iloc_until_neg k rows = (if k = 0 then [] else take (length rows - k) rows)"

text \<open>The alignment of the three stacks (the \<open>if\<close>/\<open>elif\<close> of the source).\<close>

definition align_stacks :: "'a list \<Rightarrow> 'b list \<Rightarrow> 'c list \<Rightarrow> 'a list \<times> 'b list \<times> 'c list" where
  "align_stacks x_enc x_dec y =
     (if length x_enc > length y then (butlast x_enc, x_dec, y)
      else if length x_enc < length y then (x_enc, tl x_dec, tl y)
      else (x_enc, x_dec, y))"

definition make_dataloader ::
  "('r list \<Rightarrow> nat \<Rightarrow> 'w list) \<Rightarrow> 'row list \<Rightarrow> ('row \<Rightarrow> 'r) \<Rightarrow> ('row \<Rightarrow> 'r) \<Rightarrow> ('row \<Rightarrow> 'r) \<Rightarrow>
     nat \<Rightarrow> nat \<Rightarrow> int \<Rightarrow> bool \<Rightarrow> bool \<Rightarrow> error + ('w, 'w, 'w) CustomTensorDataLoader" where
  "make_dataloader extract df encoder_features decoder_features target_id
       history_horizon forecast_horizon bs sh dl =
     (let x_enc = extract (iloc_until_neg forecast_horizon (map encoder_features df))
                    history_horizon;
          x_dec = extract (drop history_horizon (map decoder_features df)) forecast_horizon;
          y = extract (drop history_horizon (map target_id df)) forecast_horizon
      in case align_stacks x_enc x_dec y of
           (a, b, c) \<Rightarrow> loader_init \<lparr>inputs1 = a, inputs2 = b, targets = c\<rparr> bs sh dl)"

text \<open>
  Two extractions to run \<open>make_dataloader\<close> on concrete frames. The first takes every
  run of \<open>h\<close> consecutive rows as a window, which is the window count \<open>T - h + 1\<close> of the
  specification; the second cuts the frame into consecutive blocks of \<open>h\<close> rows, and
  its stacks can differ in length.
\<close>

definition sliding_windows :: "'r list \<Rightarrow> nat \<Rightarrow> 'r list list" where
  "sliding_windows rows h = map (\<lambda>i. take h (drop i rows)) [0..<Suc (length rows) - h]"

definition block_windows :: "'r list \<Rightarrow> nat \<Rightarrow> 'r list list" where
  "block_windows rows h = chunks rows (length rows div h) h"

section \<open>utils/metrics.py\<close>

subsection \<open>Tensors\<close>

text \<open>
  A tensor is its shape and its elements in row-major order; it is well formed when the
  number of elements is the product of the shape. A float that the caller passes in is
  idealised as a real number (rounding, and infinities and NaNs among the inputs, are
  outside the model). A float that a metric computes is a \<open>real option\<close>: \<open>None\<close> is a
  non-finite result (NaN or an infinity), which arises here only from a division by a
  dimension that is zero, and which every later operation of the metrics keeps
  non-finite.
\<close>

record 'a tensor =
  shape :: "nat list"
  vals :: "'a list"

definition wf_tensor :: "'a tensor \<Rightarrow> bool" where
  "wf_tensor t = (length (vals t) = prod_list (shape t))"

definition t_map :: "('a \<Rightarrow> 'b) \<Rightarrow> 'a tensor \<Rightarrow> 'b tensor" where
  "t_map f t = \<lparr>shape = shape t, vals = map f (vals t)\<rparr>"

text \<open>An elementwise operation on two tensors of the same shape.\<close>

definition t_zip :: "('a \<Rightarrow> 'b \<Rightarrow> 'c) \<Rightarrow> 'a tensor \<Rightarrow> 'b tensor \<Rightarrow> 'c tensor" where
  "t_zip f a b = \<lparr>shape = shape a, vals = map2 f (vals a) (vals b)\<rparr>"

text \<open>
  Broadcasting, for the metrics that do not compare shapes themselves: shapes are
  aligned at their last dimension, and two dimensions fit when they are equal or one of
  them is 1; shapes that do not fit are a RuntimeError.
\<close>

fun broadcast_rev :: "nat list \<Rightarrow> nat list \<Rightarrow> nat list option" where
  "broadcast_rev [] ys = Some ys"
| "broadcast_rev (x # xs) [] = Some (x # xs)"
| "broadcast_rev (x # xs) (y # ys) =
     (if x = y \<or> y = 1 then map_option (Cons x) (broadcast_rev xs ys)
      else if x = 1 then map_option (Cons y) (broadcast_rev xs ys)
      else None)"

definition broadcast_shapes :: "nat list \<Rightarrow> nat list \<Rightarrow> nat list option" where
  "broadcast_shapes s1 s2 = map_option rev (broadcast_rev (rev s1) (rev s2))"

text \<open>The multi-index of the element at a row-major position.\<close>

fun unravel :: "nat list \<Rightarrow> nat \<Rightarrow> nat list" where
  "unravel [] i = []"
| "unravel (d # ds) i = (i div prod_list ds) # unravel ds (i mod prod_list ds)"

text \<open>
  The row-major position, in a tensor of shape \<open>s\<close>, of the element that a multi-index of
  the broadcast result reads: a dimension of size 1 is read at 0.
\<close>

fun offset :: "nat list \<Rightarrow> nat list \<Rightarrow> nat" where
  "offset (d # ds) (i # js) = (if d = 1 then 0 else i) * prod_list ds + offset ds js"
| "offset [] js = 0"
| "offset (d # ds) [] = 0"

definition expand_index :: "nat list \<Rightarrow> nat list \<Rightarrow> nat \<Rightarrow> nat" where
  "expand_index s out i = offset s (drop (length out - length s) (unravel out i))"

definition t_binop :: "('a \<Rightarrow> 'b \<Rightarrow> 'c) \<Rightarrow> 'a tensor \<Rightarrow> 'b tensor \<Rightarrow> error + 'c tensor" where
  "t_binop f a b =
     (if shape a = shape b then Inr (t_zip f a b)
      else
        (case broadcast_shapes (shape a) (shape b) of
           None \<Rightarrow> Inl RuntimeError
         | Some s \<Rightarrow>
             Inr \<lparr>shape = s,
                  vals = map (\<lambda>i. f (vals a ! expand_index (shape a) s i)
                                     (vals b ! expand_index (shape b) s i))
                             [0..<prod_list s]\<rparr>))"

text \<open>
  \<open>torch.mean(x)\<close> and \<open>torch.sum(x)\<close> over all elements give a tensor of shape \<open>[]\<close>;
  the mean of no element is 0/0.
\<close>

definition mean_list :: "real list \<Rightarrow> real option" where
  "mean_list xs = (if xs = [] then None else Some (sum_list xs / real (length xs)))"

definition torch_mean :: "real tensor \<Rightarrow> real option tensor" where
  "torch_mean t = \<lparr>shape = [], vals = [mean_list (vals t)]\<rparr>"

text \<open>
  The elements along the leading dimension at position \<open>p\<close> of the remaining dimensions:
  with \<open>r\<close> the number of elements of one slice, they lie at \<open>p\<close>, \<open>r + p\<close>, \<open>2 r + p\<close>, ...
\<close>

definition column :: "'a list \<Rightarrow> nat \<Rightarrow> nat \<Rightarrow> nat \<Rightarrow> 'a list" where
  "column xs n r p = map (\<lambda>b. xs ! (b * r + p)) [0..<n]"

text \<open>
  \<open>torch.mean(x, dim=0)\<close> and \<open>torch.sum(x, dim=0)\<close>: the leading dimension is reduced
  and the others stay. A tensor of shape \<open>[]\<close> is its own reduction.
\<close>

definition torch_mean_dim0 :: "real tensor \<Rightarrow> real option tensor" where
  "torch_mean_dim0 t =
     (case shape t of
        [] \<Rightarrow> t_map Some t
      | n # rest \<Rightarrow>
          \<lparr>shape = rest,
           vals = map (\<lambda>p. mean_list (column (vals t) n (prod_list rest) p))
                      [0..<prod_list rest]\<rparr>)"

definition torch_sum_dim0 :: "real tensor \<Rightarrow> real tensor" where
  "torch_sum_dim0 t =
     (case shape t of
        [] \<Rightarrow> t
      | n # rest \<Rightarrow>
          \<lparr>shape = rest,
           vals = map (\<lambda>p. sum_list (column (vals t) n (prod_list rest) p))
                      [0..<prod_list rest]\<rparr>)"

text \<open>Arithmetic on computed floats: a non-finite operand gives a non-finite result.\<close>

definition div_dim :: "real \<Rightarrow> nat \<Rightarrow> real option" where
  "div_dim x n = (if n = 0 then None else Some (x / real n))"

definition opt_add :: "real option \<Rightarrow> real option \<Rightarrow> real option" where
  "opt_add a b = (case a of None \<Rightarrow> None | Some x \<Rightarrow> map_option (\<lambda>y. x + y) b)"

definition opt_sum :: "real option list \<Rightarrow> real option" where
  "opt_sum xs = foldl opt_add (Some 0) xs"

text \<open>The flag \<open>total\<close> of the metrics is the argument \<open>tot\<close>.\<close>

subsection \<open>The function nll-gauss\<close>

definition nll_gauss :: "real tensor \<Rightarrow> real tensor list \<Rightarrow> bool \<Rightarrow> error + real option tensor" where
  "nll_gauss target predictions tot =
     (if length predictions \<noteq> 2 then Inl AssertionError
      else
        (let expected_value = predictions ! 0;
             log_variance = predictions ! 1
         in if shape target \<noteq> shape expected_value then Inl AssertionError
            else if shape target \<noteq> shape log_variance then Inl AssertionError
            else
              (let squared_errors = t_zip (\<lambda>y m. (y - m) ^ 2) target expected_value;
                   terms = t_zip (+)
                             (t_zip (/) squared_errors (t_map (\<lambda>v. 2 * exp v) log_variance))
                             (t_map (\<lambda>v. 0.5 * v) log_variance)
               in if tot then Inr (torch_mean terms) else Inr (torch_mean_dim0 terms))))"

subsection \<open>The function pinball-loss\<close>

text \<open>The loop over \<open>enumerate(quantiles)\<close>, with the position \<open>i\<close> and the loss so far.\<close>

fun pinball_loop ::
  "real tensor \<Rightarrow> real tensor list \<Rightarrow> real list \<Rightarrow> nat \<Rightarrow> real option \<Rightarrow> error + real option" where
  "pinball_loop target predictions [] i loss = Inr loss"
| "pinball_loop target predictions (quantile # qs) i loss =
     (if \<not> 0 < quantile then Inl AssertionError
      else if \<not> quantile < 1 then Inl AssertionError
      else if length predictions \<le> i then Inl IndexError
      else if shape target \<noteq> shape (predictions ! i) then Inl AssertionError
      else
        (let errors = t_zip (-) target (predictions ! i);
             m = mean_list (vals (t_zip max (t_map (\<lambda>e. quantile * e) errors)
                                            (t_map (\<lambda>e. (quantile - 1) * e) errors)))
         in pinball_loop target predictions qs (i + 1) (opt_add loss m)))"

definition pinball_loss ::
  "real tensor \<Rightarrow> real tensor list \<Rightarrow> real list \<Rightarrow> bool \<Rightarrow> error + real option" where
  "pinball_loss target predictions quantiles tot =
     (if \<not> tot then Inl NotImplementedError
      else pinball_loop target predictions quantiles 0 (Some 0))"

subsection \<open>The function crps-gaussian\<close>

text \<open>
  \<open>Normal(0, 1).log_prob\<close> is written out; the distribution function \<open>Normal(0, 1).cdf\<close>
  of the standard normal is the parameter \<open>cdf\<close>.
\<close>

definition log_prob :: "real \<Rightarrow> real" where
  "log_prob x = - (x ^ 2) / 2 - ln (sqrt (2 * pi))"

definition crps_gaussian ::
  "(real \<Rightarrow> real) \<Rightarrow> real tensor \<Rightarrow> real tensor list \<Rightarrow> bool \<Rightarrow> error + real option tensor" where
  "crps_gaussian cdf target predictions tot =
     (if length predictions \<noteq> 2 then Inl AssertionError
      else
        (let mu = predictions ! 0;
             log_variance = predictions ! 1
         in if \<not> tot then Inl NotImplementedError
            else
              (let sig = t_map (\<lambda>v. exp (v * 0.5)) log_variance
               in case t_binop (-) target mu of
                    Inl e \<Rightarrow> Inl e
                  | Inr diff \<Rightarrow>
                      (case t_binop (/) diff sig of
                         Inl e \<Rightarrow> Inl e
                       | Inr sx \<Rightarrow>
                           (let pdf = t_map (\<lambda>x. exp (log_prob x)) sx;
                                pi_inv = 1 / sqrt pi;
                                inner = t_zip (\<lambda>x c. x * (2 * c - 1)) sx (t_map cdf sx);
                                bracket = t_zip (\<lambda>a p. a + 2 * p - pi_inv) inner pdf
                            in case t_binop (*) sig bracket of
                                 Inl e \<Rightarrow> Inl e
                               | Inr crps \<Rightarrow> Inr (torch_mean crps))))))"

subsection \<open>mse and rmse\<close>

definition mse :: "real tensor \<Rightarrow> real tensor list \<Rightarrow> bool \<Rightarrow> error + real option tensor" where
  "mse target predictions tot =
     (case predictions of
        [] \<Rightarrow> Inl IndexError
      | p0 # _ \<Rightarrow>
          if shape p0 \<noteq> shape target then Inl ValueError
          else
            (let squared_errors = t_zip (\<lambda>y p. (y - p) ^ 2) target p0
             in if tot then Inr (torch_mean squared_errors)
                else Inr (torch_mean_dim0 squared_errors)))"

definition rmse :: "real tensor \<Rightarrow> real tensor list \<Rightarrow> bool \<Rightarrow> error + real option tensor" where
  "rmse target predictions tot =
     (case predictions of
        [] \<Rightarrow> Inl IndexError
      | p0 # _ \<Rightarrow>
          if shape p0 \<noteq> shape target then Inl ValueError
          else
            (let squared_errors = t_zip (\<lambda>y p. (y - p) ^ 2) target p0
             in if tot then Inr (t_map (map_option sqrt) (torch_mean squared_errors))
                else Inr (t_map (map_option sqrt) (torch_mean_dim0 squared_errors))))"

subsection \<open>picp\<close>

text \<open>
  The comparisons and the conjunction broadcast; \<open>torch.sum(..., dim=0)\<close> counts the
  covered targets along the batch dimension. \<open>target.shape[0]\<close> and \<open>target.shape[1]\<close>
  are read after the numerators, and reading a dimension the target does not have is an
  IndexError. \<open>coverage_total\<close> is computed whatever \<open>total\<close> is.
\<close>

definition picp :: "real tensor \<Rightarrow> real tensor list \<Rightarrow> bool \<Rightarrow> error + real option tensor" where
  "picp target predictions tot =
     (if length predictions \<noteq> 2 then Inl AssertionError
      else
        (let y_pred_upper = predictions ! 0;
             y_pred_lower = predictions ! 1
         in case t_binop (\<lambda>y l. l < y) target y_pred_lower of
              Inl e \<Rightarrow> Inl e
            | Inr gt_lower \<Rightarrow>
                (case t_binop (\<lambda>y u. y \<le> u) target y_pred_upper of
                   Inl e \<Rightarrow> Inl e
                 | Inr le_upper \<Rightarrow>
                     (case t_binop (\<and>) gt_lower le_upper of
                        Inl e \<Rightarrow> Inl e
                      | Inr covered \<Rightarrow>
                          (let counts = torch_sum_dim0 (t_map (\<lambda>c. if c then 1 else 0) covered);
                               scaled = t_map (\<lambda>c. 100 * c) counts
                           in case shape target of
                                [] \<Rightarrow> Inl IndexError
                              | n # rest \<Rightarrow>
                                  (let coverage_horizon = t_map (\<lambda>x. div_dim x n) scaled
                                   in case rest of
                                        [] \<Rightarrow> Inl IndexError
                                      | h # _ \<Rightarrow>
                                          (let coverage_total =
                                                 \<lparr>shape = [],
                                                  vals = [case opt_sum (vals coverage_horizon) of
                                                            None \<Rightarrow> None
                                                          | Some s \<Rightarrow> div_dim s h]\<rparr>
                                           in if tot then Inr coverage_total
                                              else Inr coverage_horizon)))))))"

subsection \<open>The formulas of the specification\<close>

text \<open>
  The term of the Gaussian negative log-likelihood at one position, as the specification
  writes it: \<open>(target - \<mu>)\<^sup>2 / (2 e^{log \<sigma>\<^sup>2}) + 0.5 log \<sigma>\<^sup>2\<close>.
\<close>

definition gauss_nll_term :: "real \<Rightarrow> real \<Rightarrow> real \<Rightarrow> real" where
  "gauss_nll_term y mu log_var = (y - mu) ^ 2 / (2 * exp log_var) + 0.5 * log_var"

text \<open>The mean of \<open>f 0, ..., f (n - 1)\<close>; there is none when \<open>n = 0\<close>.\<close>

definition mean_over :: "nat \<Rightarrow> (nat \<Rightarrow> real) \<Rightarrow> real option" where
  "mean_over n f = (if n = 0 then None else Some ((\<Sum>i<n. f i) / real n))"

text \<open>A target is covered by an interval when it lies in \<open>(lower, upper]\<close>.\<close>

definition covered :: "real \<Rightarrow> real \<Rightarrow> real \<Rightarrow> bool" where
  "covered y upper lower = (lower < y \<and> y \<le> upper)"

text \<open>
  The coverage, in percent, of horizon step \<open>p\<close> over a batch of \<open>n\<close> windows with \<open>h\<close>
  steps each: the share of the windows whose target at step \<open>p\<close> is covered.
\<close>

definition step_coverage :: "real list \<Rightarrow> real list \<Rightarrow> real list \<Rightarrow> nat \<Rightarrow> nat \<Rightarrow> nat \<Rightarrow> real" where
  "step_coverage ys us ls n h p =
     100 * real (length (filter (\<lambda>b. covered (ys ! (b * h + p)) (us ! (b * h + p)) (ls ! (b * h + p)))
                                [0..<n])) / real n"

section \<open>source/train.py\<close>

subsection \<open>Floats that decide control flow\<close>

text \<open>
  A validation loss and a test score are Python floats that the program compares, and a
  run that diverges produces NaN or an infinity. They are modelled with these values
  kept apart from the finite ones, which are idealised as real numbers. \<open>f_less a b\<close> is
  the comparison \<open>a < b\<close> of floats (\<open>b > a\<close> is the same test): every comparison with
  NaN is false. \<open>f_sub a e\<close> is \<open>a - e\<close> for a finite \<open>e\<close>.
\<close>

datatype pyfloat = Fin real | PosInf | NegInf | NaN

fun f_less :: "pyfloat \<Rightarrow> pyfloat \<Rightarrow> bool" where
  "f_less (Fin a) (Fin b) = (a < b)"
| "f_less (Fin a) PosInf = True"
| "f_less NegInf (Fin b) = True"
| "f_less NegInf PosInf = True"
| "f_less a b = False"

fun f_sub :: "pyfloat \<Rightarrow> real \<Rightarrow> pyfloat" where
  "f_sub (Fin a) e = Fin (a - e)"
| "f_sub a e = a"

subsection \<open>The early-stopping controller\<close>





subsection \<open>The function train\<close>



text \<open>
  The course of training without the controller, to say which epoch a parameter set
  comes from: the parameters and the other state at the end of epoch \<open>k\<close>, and the
  validation loss measured in epoch \<open>k \<ge> 1\<close>.
\<close>

primrec state_after ::
  "('p \<Rightarrow> 'o \<Rightarrow> 'p \<times> 'o) \<Rightarrow> ('p \<Rightarrow> 'o \<Rightarrow> pyfloat \<times> 'o) \<Rightarrow> 'p \<Rightarrow> 'o \<Rightarrow> nat \<Rightarrow> 'p \<times> 'o" where
  "state_after fit validate net aux 0 = (net, aux)"
| "state_after fit validate net aux (Suc k) =
     (let s = state_after fit validate net aux k;
          trained = fit (fst s) (snd s)
      in (fst trained, snd (validate (fst trained) (snd trained))))"

definition val_loss_at ::
  "('p \<Rightarrow> 'o \<Rightarrow> 'p \<times> 'o) \<Rightarrow> ('p \<Rightarrow> 'o \<Rightarrow> pyfloat \<times> 'o) \<Rightarrow> 'p \<Rightarrow> 'o \<Rightarrow> nat \<Rightarrow> pyfloat" where
  "val_loss_at fit validate net aux k =
     (let s = state_after fit validate net aux (k - 1);
          trained = fit (fst s) (snd s)
      in fst (validate (fst trained) (snd trained)))"



subsection \<open>The model-improvement decision of main\<close>

text \<open>
  The entries of the dictionary \<open>PAR\<close> that the end of \<open>main\<close> reads and writes. A
  \<open>best_score\<close> of \<open>None\<close> is a missing key or the value \<open>None\<close>: the source treats both
  as no previous score. \<open>hyper_params\<close> stands for the other entries, which the search
  may replace.
\<close>

record 'h PAR =
  par_best_score :: "pyfloat option"
  par_best_loss :: "pyfloat option"
  par_exploration :: bool
  par_hyper_params :: 'h

text \<open>What reaches the disk when \<open>main\<close> ends.\<close>

datatype ('n, 'h) effect =
    SaveModel 'n
  | WriteConfig "'h PAR"
  | WriteLog

record ('n, 'h) run_state =
  par :: "'h PAR"
  min_net :: "'n option"

text \<open>\<open>score_sofar > new_score\<close> on floats, with \<open>np.inf\<close> for no previous score.\<close>

definition score_improved :: "pyfloat option \<Rightarrow> pyfloat \<Rightarrow> bool" where
  "score_improved best new_score =
     (let score_sofar = (case best of None \<Rightarrow> PosInf | Some s \<Rightarrow> s)
      in f_less new_score score_sofar)"

text \<open>
  The decision after \<open>train\<close> has returned. \<open>ci\<close> is \<open>ARGS.ci\<close>; \<open>ask1\<close> and \<open>ask2\<close> are
  what the two calls of \<open>query_true_false\<close> give, an answer or an exception such as the
  user's interrupt; \<open>study_best\<close> and \<open>trial_params\<close> are the best value and parameters of
  the search. The state comes back together with the exception that ended the block,
  if any: the assignments made before it stay.
\<close>

definition decide ::
  "bool \<Rightarrow> error + bool \<Rightarrow> error + bool \<Rightarrow> pyfloat \<Rightarrow> 'h \<Rightarrow> 'n \<Rightarrow> pyfloat \<Rightarrow> pyfloat \<Rightarrow>
     ('n, 'h) run_state \<Rightarrow> ('n, 'h) run_state \<times> error option" where
  "decide ci ask1 ask2 study_best trial_params net loss new_score st =
     (if score_improved (par_best_score (par st)) new_score then
        (let st1 = st\<lparr>min_net := Some net,
                       par := (par st)\<lparr>par_best_score := Some new_score,
                                       par_best_loss := Some loss\<rparr>\<rparr>
         in if par_exploration (par st1) \<and> \<not> ci then
              (case ask1 of
                 Inl e \<Rightarrow> (st1, Some e)
               | Inr overwrite \<Rightarrow>
                   (let st2 = (if overwrite then
                                 st1\<lparr>par := (par st1)\<lparr>par_best_loss := Some study_best,
                                                        par_hyper_params := trial_params\<rparr>\<rparr>
                               else st1)
                    in case ask2 of
                         Inl e \<Rightarrow> (st2, Some e)
                       | Inr off \<Rightarrow>
                           (st2\<lparr>par := (par st2)\<lparr>par_exploration := \<not> off\<rparr>\<rparr>, None)))
            else (st1, None))
      else (st, None))"

text \<open>The \<open>finally\<close> block: the model and the configuration, then the log.\<close>

definition finally_block :: "bool \<Rightarrow> ('n, 'h) run_state \<Rightarrow> ('n, 'h) effect list" where
  "finally_block has_log st =
     (case min_net st of
        None \<Rightarrow> []
      | Some net \<Rightarrow> [SaveModel net, WriteConfig (par st)])
     @ (if has_log then [WriteLog] else [])"

text \<open>
  The end of \<open>main\<close>, from the call of \<open>train\<close> on: \<open>min_net\<close> is still \<open>None\<close>; the result
  of \<open>train\<close> is an exception or the network, the best validation loss and the test
  score. A KeyboardInterrupt is caught, any other exception is passed on after the
  \<open>finally\<close> block has run. The result is what was written and the exception passed on.
\<close>

definition main_end ::
  "bool \<Rightarrow> error + bool \<Rightarrow> error + bool \<Rightarrow> pyfloat \<Rightarrow> 'h \<Rightarrow> bool \<Rightarrow> 'h PAR \<Rightarrow>
     error + ('n \<times> pyfloat \<times> pyfloat) \<Rightarrow> ('n, 'h) effect list \<times> error option" where
  "main_end ci ask1 ask2 study_best trial_params has_log p train_result =
     (let st0 = \<lparr>par = p, min_net = None\<rparr>;
          r = (case train_result of
                 Inl e \<Rightarrow> (st0, Some e)
               | Inr (net, loss, new_score) \<Rightarrow>
                   decide ci ask1 ask2 study_best trial_params net loss new_score st0)
      in (finally_block has_log (fst r),
          (if snd r = Some KeyboardInterrupt then None else snd r)))"

section \<open>Properties\<close>

subsection \<open>Properties of the batch iterator\<close>

lemma length_chunks: "length (chunks xs rows cols) = rows"
  by (simp add: chunks_def)

lemma chunks_Suc: "chunks xs (Suc rows) cols = take cols xs # chunks (drop cols xs) rows cols"
  by (simp add: chunks_def map_upt_Suc add.commute del: upt_Suc)

lemma concat_chunks:
  "length xs = rows * cols \<Longrightarrow> concat (chunks xs rows cols) = xs"
proof (induction rows arbitrary: xs)
  case 0
  then show ?case by (simp add: chunks_def)
next
  case (Suc rows)
  then have "length (drop cols xs) = rows * cols" by simp
  then have "concat (chunks (drop cols xs) rows cols) = drop cols xs" by (rule Suc.IH)
  then show ?case by (simp add: chunks_Suc)
qed

lemma chunks_row_length:
  assumes "length xs = rows * cols" "r \<in> set (chunks xs rows cols)"
  shows "length r = cols"
proof -
  from assms(2) obtain i where i: "i < rows" and r: "r = take cols (drop (i * cols) xs)"
    by (auto simp: chunks_def)
  from i have "Suc i * cols \<le> rows * cols" by (intro mult_le_mono1) simp
  then have "i * cols + cols \<le> length xs" using assms(1) by simp
  then show ?thesis using r by simp
qed

lemma loader_len_batch_index [simp]:
  "loader_len (l\<lparr>batch_index := x\<rparr>) = loader_len l"
  by (simp add: loader_len_def)

lemma drain_schedule:
  assumes "loader_len l = Inr n" "permutation l = Some m" "length m = n"
    "batch_index l = Some i" "i \<le> n"
    "\<forall>r \<in> set m. \<forall>j \<in> set r. j < length (inputs1 (dataset l)) \<and> j < length (inputs2 (dataset l)) \<and> j < length (targets (dataset l))"
  shows "loader_drain l = Inr (map (gather (dataset l)) (drop i m))"
  using assms
proof (induction "n - i" arbitrary: i l)
  case 0
  then have "i = n" by simp
  with 0 have "loader_next l = Inl StopIteration"
    by (simp add: loader_next_def)
  moreover have "drop i m = []" using 0 \<open>i = n\<close> by simp
  ultimately show ?case by (subst loader_drain.simps) simp
next
  case (Suc k)
  then have lt: "i < n" by simp
  let ?l' = "l\<lparr>batch_index := Some (Suc i)\<rparr>"
  have row: "m ! i \<in> set m" using lt Suc.prems by simp
  have g: "data_getitem (dataset l) (m ! i) = Inr (gather (dataset l) (m ! i))"
    using Suc.prems(6) row
    by (auto simp: data_getitem_def index_rows_def gather_def list_all_iff)
  have nx: "loader_next l = Inr (gather (dataset l) (m ! i), ?l')"
    using Suc.prems lt g by (simp add: loader_next_def)
  have len': "loader_len ?l' = Inr n" using Suc.prems(1) by simp
  have "loader_drain ?l' = Inr (map (gather (dataset ?l')) (drop (Suc i) m))"
    apply (rule Suc.hyps(1))
    using Suc.hyps(2) Suc.prems lt len' by auto
  then have ih: "loader_drain ?l' = Inr (map (gather (dataset l)) (drop (Suc i) m))"
    by simp
  have dr: "drop i m = m ! i # drop (Suc i) m"
    using lt Suc.prems(3) by (simp add: Cons_nth_drop_Suc)
  have "loader_drain l =
      (case loader_next l of
        Inl e \<Rightarrow> (if e = StopIteration then Inr [] else Inl e)
      | Inr r \<Rightarrow>
          (case loader_drain (snd r) of
             Inl e \<Rightarrow> Inl e
           | Inr bs \<Rightarrow> Inr (fst r # bs)))"
    by (rule loader_drain.simps)
  also have "\<dots> = Inr (gather (dataset l) (m ! i) # map (gather (dataset l)) (drop (Suc i) m))"
    by (simp add: nx ih)
  finally show ?case by (simp add: dr)
qed

lemma loader_len_nat:
  assumes "batch_size l = int B" "1 \<le> B" "length (targets (dataset l)) = N"
  shows "loader_len l = Inr (N div B)"
proof -
  have "int N div int B = int (N div B)" by (simp add: zdiv_int)
  then show ?thesis using assms by (simp add: loader_len_def data_len_def)
qed

lemma loader_iter_schedule:
  assumes "batch_size l = int B" "1 \<le> B" "length (targets (dataset l)) = N"
    and "shuffle l \<longrightarrow> length p = N"
  shows "loader_iter p l =
     Inr (l\<lparr>permutation := Some (schedule p (shuffle l) N B), batch_index := Some 0\<rparr>)"
proof -
  have d: "int N div int B = int (N div B)" by (simp add: zdiv_int)
  have n: "nat (int B * int (N div B)) = B * (N div B)"
    by (simp add: nat_mult_distrib)
  have le: "B * (N div B) \<le> N" by simp
  let ?perm = "if shuffle l then take (B * (N div B)) p else [0..<B * (N div B)]"
  have len: "length ?perm = (N div B) * B" using assms(4) le by (simp add: mult.commute)
  have "np_reshape ?perm (N div B) (int B) = Inr (chunks ?perm (N div B) B)"
    using assms(2) len by (simp add: np_reshape_def)
  then show ?thesis
    using assms(1,2,3) loader_len_nat[OF assms(1,2,3)]
    by (cases "shuffle l") (simp_all add: loader_iter_def data_len_def d n schedule_def Let_def)
qed

lemma schedule_props:
  assumes "1 \<le> B" "sh \<longrightarrow> mset p = mset [0..<N]"
  shows "length (schedule p sh N B) = N div B"
    and "\<forall>r\<in>set (schedule p sh N B). length r = B"
    and "distinct (concat (schedule p sh N B))"
    and "set (concat (schedule p sh N B)) \<subseteq> {0..<N}"
proof -
  let ?n = "B * (N div B)"
  let ?perm = "if sh then take ?n p else [0..<?n]"
  have le: "?n \<le> N" by simp
  have lp: "sh \<Longrightarrow> length p = N" using assms(2) by (metis length_upt mset_eq_length diff_zero)
  have dp: "sh \<Longrightarrow> distinct p" using assms(2) by (metis distinct_upt mset_eq_imp_distinct_iff)
  have sp: "sh \<Longrightarrow> set p = {0..<N}" using assms(2) by (metis mset_eq_setD set_upt)
  have len: "length ?perm = (N div B) * B" using lp le by (simp add: mult.commute)
  have cc: "concat (schedule p sh N B) = ?perm"
    unfolding schedule_def using len by (rule concat_chunks)
  show "length (schedule p sh N B) = N div B" by (simp add: schedule_def length_chunks)
  show "\<forall>r\<in>set (schedule p sh N B). length r = B"
    unfolding schedule_def using chunks_row_length[OF len] by blast
  show "distinct (concat (schedule p sh N B))" using cc dp by simp
  show "set (concat (schedule p sh N B)) \<subseteq> {0..<N}"
  proof (cases sh)
    case True
    then have "set ?perm \<subseteq> set p" by (simp add: set_take_subset)
    then show ?thesis using cc sp True by simp
  next
    case False
    then show ?thesis using cc le by auto
  qed
qed

lemma loader_pass_schedule:
  assumes "batch_size l = int B" "1 \<le> B"
    and "length (inputs1 (dataset l)) = N" "length (inputs2 (dataset l)) = N"
        "length (targets (dataset l)) = N"
    and "shuffle l \<longrightarrow> mset p = mset [0..<N]"
  shows "loader_pass p l = Inr (map (gather (dataset l)) (schedule p (shuffle l) N B))"
proof -
  let ?m = "schedule p (shuffle l) N B"
  let ?l' = "l\<lparr>permutation := Some ?m, batch_index := Some 0\<rparr>"
  have lp: "shuffle l \<longrightarrow> length p = N"
    using assms(6) by (metis length_upt mset_eq_length diff_zero)
  have it: "loader_iter p l = Inr ?l'"
    using assms(1,2,5) lp by (rule loader_iter_schedule)
  have ln: "loader_len ?l' = Inr (N div B)"
    by (rule loader_len_nat) (use assms in simp_all)
  have sub: "set (concat ?m) \<subseteq> {0..<N}" using schedule_props(4)[OF assms(2,6)] .
  have "loader_drain ?l' = Inr (map (gather (dataset ?l')) (drop 0 ?m))"
  proof (rule drain_schedule[OF ln])
    show "\<forall>r\<in>set ?m. \<forall>j\<in>set r. j < length (inputs1 (dataset ?l')) \<and>
        j < length (inputs2 (dataset ?l')) \<and> j < length (targets (dataset ?l'))"
      using sub assms(3,4,5) by auto
  qed (simp_all add: schedule_props(1)[OF assms(2,6)])
  then show ?thesis by (simp add: loader_pass_def it)
qed


text \<open>
  C2. For every dataset, batch size and shuffle flag, the constructor called with
  \<open>drop_last=False\<close> raises NotImplementedError and returns no iterator, so no batch can
  be produced from it; called with \<open>drop_last=True\<close> it returns the iterator.
\<close>

theorem loader_init_drop_last:
  "loader_init ds bs sh False = Inl NotImplementedError \<and>
   loader_init ds bs sh True =
     Inr \<lparr>dataset = ds, batch_size = bs, shuffle = sh, drop_last = True,
          permutation = None, batch_index = None\<rparr>"
  by (simp add: loader_init_def)

text \<open>
  C3. For a dataset whose three tensors have \<open>N\<close> windows and a batch size \<open>B \<ge> 1\<close>,
  \<open>len\<close> of the iterator is \<open>N div B\<close>, and one iteration pass (shuffled with any drawn
  permutation of \<open>0..<N\<close>, or unshuffled) ends normally with exactly \<open>N div B\<close> batches,
  each holding exactly \<open>B\<close> windows of each tensor.
\<close>

theorem loader_pass_counts:
  assumes "batch_size l = int B" and "1 \<le> B"
    and "length (inputs1 (dataset l)) = N" and "length (inputs2 (dataset l)) = N"
    and "length (targets (dataset l)) = N"
    and "shuffle l \<longrightarrow> mset p = mset [0..<N]"
  shows "loader_len l = Inr (N div B) \<and>
         (\<exists>bs. loader_pass p l = Inr bs \<and> length bs = N div B \<and>
            list_all (\<lambda>(a, b, c). length a = B \<and> length b = B \<and> length c = B) bs)"
proof -
  let ?m = "schedule p (shuffle l) N B"
  have pass: "loader_pass p l = Inr (map (gather (dataset l)) ?m)"
    using assms by (rule loader_pass_schedule)
  have rows: "\<forall>r\<in>set ?m. length r = B"
    using assms(2,6) by (rule schedule_props(2))
  have "list_all (\<lambda>(a, b, c). length a = B \<and> length b = B \<and> length c = B)
          (map (gather (dataset l)) ?m)"
    using rows by (simp add: list_all_iff gather_def)
  moreover have "length (map (gather (dataset l)) ?m) = N div B"
    using assms(2,6) by (simp add: schedule_props(1))
  moreover have "loader_len l = Inr (N div B)"
    using assms(1,2,5) by (rule loader_len_nat)
  ultimately show ?thesis using pass by blast
qed


theorem loader_pass_counts_witness:
  "loader_len \<lparr>dataset = \<lparr>inputs1 = [10, 11, 12, 13, 14 :: nat],
                            inputs2 = [20, 21, 22, 23, 24 :: nat],
                            targets = [30, 31, 32, 33, 34 :: nat]\<rparr>,
               batch_size = 2, shuffle = True, drop_last = True,
               permutation = None, batch_index = None\<rparr> = Inr 2 \<and>
   (\<exists>bs. loader_pass [3, 1, 4, 0, 2]
           \<lparr>dataset = \<lparr>inputs1 = [10, 11, 12, 13, 14 :: nat],
                        inputs2 = [20, 21, 22, 23, 24 :: nat],
                        targets = [30, 31, 32, 33, 34 :: nat]\<rparr>,
            batch_size = 2, shuffle = True, drop_last = True,
            permutation = None, batch_index = None\<rparr> = Inr bs \<and>
         length bs = 2 \<and>
         list_all (\<lambda>(a, b, c). length a = 2 \<and> length b = 2 \<and> length c = 2) bs)"
proof -
  have u: "[0..<5] = [0, 1, 2, 3, 4::nat]" by (simp add: upt_conv_Cons)
  have h: "mset [3, 1, 4, 0, 2] = mset [0..<5::nat]" unfolding u by simp
  show ?thesis
  using h loader_pass_counts
    [of "\<lparr>dataset = \<lparr>inputs1 = [10, 11, 12, 13, 14 :: nat],
                         inputs2 = [20, 21, 22, 23, 24 :: nat],
                         targets = [30, 31, 32, 33, 34 :: nat]\<rparr>,
            batch_size = 2, shuffle = True, drop_last = True,
            permutation = None, batch_index = None\<rparr>" 2 5 "[3, 1, 4, 0, 2]"]
  by simp
qed


text \<open>
  C10. Under the same conditions, the batches of one pass are the dataset rows at the
  rows \<open>m\<close> of an index schedule in which every index is a valid window index, no index
  occurs twice in the whole pass, and any two different batches have disjoint index sets.
\<close>

theorem loader_pass_disjoint:
  assumes "batch_size l = int B" and "1 \<le> B"
    and "length (inputs1 (dataset l)) = N" and "length (inputs2 (dataset l)) = N"
    and "length (targets (dataset l)) = N"
    and "shuffle l \<longrightarrow> mset p = mset [0..<N]"
  shows "\<exists>m. loader_pass p l = Inr (map (gather (dataset l)) m) \<and>
           list_all (\<lambda>r. list_all (\<lambda>i. i < N) r) m \<and>
           distinct (concat m) \<and>
           (\<forall>i < length m. \<forall>j < length m. i \<noteq> j \<longrightarrow> set (m ! i) \<inter> set (m ! j) = {})"
proof -
  let ?m = "schedule p (shuffle l) N B"
  have pass: "loader_pass p l = Inr (map (gather (dataset l)) ?m)"
    using assms by (rule loader_pass_schedule)
  have d: "distinct (concat ?m)" using assms(2,6) by (rule schedule_props(3))
  have s: "set (concat ?m) \<subseteq> {0..<N}" using assms(2,6) by (rule schedule_props(4))
  have rows: "\<forall>r\<in>set ?m. length r = B" using assms(2,6) by (rule schedule_props(2))
  have valid: "list_all (\<lambda>r. list_all (\<lambda>i. i < N) r) ?m"
    using s by (auto simp: list_all_iff)
  have disj: "set (?m ! i) \<inter> set (?m ! j) = {}"
    if "i < length ?m" "j < length ?m" "i \<noteq> j" for i j
  proof -
    have ne: "[] \<notin> set ?m" using rows assms(2) by auto
    then have "removeAll [] ?m = ?m" by simp
    with d have dm: "distinct ?m" by (simp add: distinct_concat_iff)
    then have "?m ! i \<noteq> ?m ! j" using that by (simp add: nth_eq_iff_index_eq)
    moreover have "?m ! i \<in> set ?m" "?m ! j \<in> set ?m" using that by simp_all
    ultimately show ?thesis using d by (simp add: distinct_concat_iff)
  qed
  show ?thesis using pass valid d disj by blast
qed

theorem loader_pass_disjoint_witness:
  "\<exists>m. loader_pass [3, 1, 4, 0, 2]
           \<lparr>dataset = \<lparr>inputs1 = [10, 11, 12, 13, 14 :: nat],
                        inputs2 = [20, 21, 22, 23, 24 :: nat],
                        targets = [30, 31, 32, 33, 34 :: nat]\<rparr>,
            batch_size = 2, shuffle = True, drop_last = True,
            permutation = None, batch_index = None\<rparr> =
          Inr (map (gather \<lparr>inputs1 = [10, 11, 12, 13, 14 :: nat],
                            inputs2 = [20, 21, 22, 23, 24 :: nat],
                            targets = [30, 31, 32, 33, 34 :: nat]\<rparr>) m) \<and>
        list_all (\<lambda>r. list_all (\<lambda>i. i < 5) r) m \<and>
        distinct (concat m) \<and>
        (\<forall>i < length m. \<forall>j < length m. i \<noteq> j \<longrightarrow> set (m ! i) \<inter> set (m ! j) = {})"
proof -
  have u: "[0..<5] = [0, 1, 2, 3, 4::nat]" by (simp add: upt_conv_Cons)
  have h: "mset [3, 1, 4, 0, 2] = mset [0..<5::nat]" unfolding u by simp
  show ?thesis
    using h loader_pass_disjoint
      [of "\<lparr>dataset = \<lparr>inputs1 = [10, 11, 12, 13, 14 :: nat],
                           inputs2 = [20, 21, 22, 23, 24 :: nat],
                           targets = [30, 31, 32, 33, 34 :: nat]\<rparr>,
              batch_size = 2, shuffle = True, drop_last = True,
              permutation = None, batch_index = None\<rparr>" 2 5 "[3, 1, 4, 0, 2]"]
    by simp
qed


lemma length_iloc_until_neg:
  "length (iloc_until_neg k rows) = (if k = 0 then 0 else length rows - k)"
  by (simp add: iloc_until_neg_def)

text \<open>
  C4. Let the number of windows that \<open>extract\<close> returns depend on the number of rows and
  the horizon only (\<open>cnt\<close>), and let the encoder count \<open>a\<close>, taken on the frame without
  its last \<open>forecast_horizon\<close> rows, and the decoder and target count \<open>n\<close>, taken on the
  frame without its first \<open>history_horizon\<close> rows, differ by at most one. Then
  \<open>make_dataloader\<close> builds the iterator and the three tensors of its dataset have the
  same leading dimension, the smaller of \<open>a\<close> and \<open>n\<close>: an encoder stack longer by one
  has lost its last window, and if it is shorter by one the decoder and target stacks
  have lost their first window.
\<close>

theorem make_dataloader_aligned:
  assumes "\<And>rows h. length (extract rows h) = cnt (length rows) h"
    and "a = cnt (if forecast_horizon = 0 then 0 else length df - forecast_horizon)
               history_horizon"
    and "n = cnt (length df - history_horizon) forecast_horizon"
    and "a = n \<or> a = n + 1 \<or> a + 1 = n"
  shows "\<exists>l. make_dataloader extract df encoder_features decoder_features target_id
               history_horizon forecast_horizon bs sh True = Inr l \<and>
           length (inputs1 (dataset l)) = min a n \<and>
           length (inputs2 (dataset l)) = min a n \<and>
           length (targets (dataset l)) = min a n \<and>
           inputs1 (dataset l) =
             (if a = n + 1 then butlast else id)
               (extract (iloc_until_neg forecast_horizon (map encoder_features df))
                  history_horizon) \<and>
           inputs2 (dataset l) =
             (if a + 1 = n then tl else id)
               (extract (drop history_horizon (map decoder_features df)) forecast_horizon) \<and>
           targets (dataset l) =
             (if a + 1 = n then tl else id)
               (extract (drop history_horizon (map target_id df)) forecast_horizon)"
proof -
  let ?x_enc = "extract (iloc_until_neg forecast_horizon (map encoder_features df))
                  history_horizon"
  let ?x_dec = "extract (drop history_horizon (map decoder_features df)) forecast_horizon"
  let ?y = "extract (drop history_horizon (map target_id df)) forecast_horizon"
  have le: "length ?x_enc = a"
    by (simp only: assms(1,2) length_iloc_until_neg length_map)
  have ld: "length ?x_dec = n"
    by (simp only: assms(1,3) length_drop length_map)
  have ly: "length ?y = n"
    by (simp only: assms(1,3) length_drop length_map)
  consider (eq) "a = n" | (longer) "a = n + 1" | (shorter) "a + 1 = n"
    using assms(4) by blast
  then show ?thesis
  proof cases
    case eq
    then have "align_stacks ?x_enc ?x_dec ?y = (?x_enc, ?x_dec, ?y)"
      by (simp add: align_stacks_def le ly)
    then show ?thesis
      using eq le ld ly by (simp add: make_dataloader_def Let_def loader_init_def)
  next
    case longer
    then have "align_stacks ?x_enc ?x_dec ?y = (butlast ?x_enc, ?x_dec, ?y)"
      by (simp add: align_stacks_def le ly)
    then show ?thesis
      using longer le ld ly by (simp add: make_dataloader_def Let_def loader_init_def)
  next
    case shorter
    then have "align_stacks ?x_enc ?x_dec ?y = (?x_enc, tl ?x_dec, tl ?y)"
      by (auto simp: align_stacks_def le ly)
    then show ?thesis
      using shorter le ld ly by (auto simp: make_dataloader_def Let_def loader_init_def)
  qed
qed

text \<open>
  Two runs with block extraction, whose count is \<open>T div h\<close>. Five rows with horizons 1
  and 2 give three encoder windows against two decoder and target windows, and the last
  encoder window is cut. Four rows with horizons 2 and 1 give one encoder window
  against two, and the first decoder and target windows are cut. A third run, with
  sliding windows over five rows and horizons 2 and 1, gives three windows each and
  nothing is cut.
\<close>

theorem make_dataloader_aligned_witness:
  "(\<exists>l. make_dataloader block_windows [1, 2, 3, 4, 5 :: int] (\<lambda>r. r) (\<lambda>r. r) (\<lambda>r. r)
           1 2 1 False True = Inr l \<and>
        inputs1 (dataset l) = [[1], [2]] \<and>
        inputs2 (dataset l) = [[2, 3], [4, 5]] \<and>
        targets (dataset l) = [[2, 3], [4, 5]]) \<and>
   (\<exists>l. make_dataloader block_windows [1, 2, 3, 4 :: int] (\<lambda>r. r) (\<lambda>r. r) (\<lambda>r. r)
           2 1 1 False True = Inr l \<and>
        inputs1 (dataset l) = [[1, 2]] \<and>
        inputs2 (dataset l) = [[4]] \<and>
        targets (dataset l) = [[4]]) \<and>
   (\<exists>l. make_dataloader sliding_windows [1, 2, 3, 4, 5 :: int] (\<lambda>r. r) (\<lambda>r. r) (\<lambda>r. r)
           2 1 1 False True = Inr l \<and>
        inputs1 (dataset l) = [[1, 2], [2, 3], [3, 4]] \<and>
        inputs2 (dataset l) = [[3], [4], [5]] \<and>
        targets (dataset l) = [[3], [4], [5]])"
proof -
  have c: "\<And>rows h. length (block_windows rows h :: int list list) = length rows div h"
    by (simp add: block_windows_def chunks_def)
  have e1: "block_windows (iloc_until_neg 2 (map (\<lambda>r. r) [1, 2, 3, 4, 5 :: int])) 1 =
      [[1], [2], [3]]"
    by code_simp
  have d1: "block_windows (drop 1 (map (\<lambda>r. r) [1, 2, 3, 4, 5 :: int])) 2 = [[2, 3], [4, 5]]"
    by code_simp
  have e2: "block_windows (iloc_until_neg 1 (map (\<lambda>r. r) [1, 2, 3, 4 :: int])) 2 = [[1, 2]]"
    by code_simp
  have d2: "block_windows (drop 2 (map (\<lambda>r. r) [1, 2, 3, 4 :: int])) 1 = [[3], [4]]"
    by code_simp
  have longer: "(3::nat) = (if (2::nat) = 0 then 0 else length [1, 2, 3, 4, 5 :: int] - 2) div 1"
    "(2::nat) = (length [1, 2, 3, 4, 5 :: int] - 1) div 2"
    "(3::nat) = 2 \<or> (3::nat) = 2 + 1 \<or> (3::nat) + 1 = 2"
    by simp_all
  have shorter: "(1::nat) = (if (1::nat) = 0 then 0 else length [1, 2, 3, 4 :: int] - 1) div 2"
    "(2::nat) = (length [1, 2, 3, 4 :: int] - 2) div 1"
    "(1::nat) = 2 \<or> (1::nat) = 2 + 1 \<or> (1::nat) + 1 = 2"
    by simp_all
  from make_dataloader_aligned [of block_windows "\<lambda>T h. T div h", OF c longer,
         of "\<lambda>r. r" "\<lambda>r. r" "\<lambda>r. r" 1 False]
  have w1: "\<exists>l. make_dataloader block_windows [1, 2, 3, 4, 5 :: int] (\<lambda>r. r) (\<lambda>r. r) (\<lambda>r. r)
           1 2 1 False True = Inr l \<and>
        inputs1 (dataset l) = [[1], [2]] \<and>
        inputs2 (dataset l) = [[2, 3], [4, 5]] \<and>
        targets (dataset l) = [[2, 3], [4, 5]]"
    unfolding e1 d1 by auto
  from make_dataloader_aligned [of block_windows "\<lambda>T h. T div h", OF c shorter,
         of "\<lambda>r. r" "\<lambda>r. r" "\<lambda>r. r" 1 False]
  have w2: "\<exists>l. make_dataloader block_windows [1, 2, 3, 4 :: int] (\<lambda>r. r) (\<lambda>r. r) (\<lambda>r. r)
           2 1 1 False True = Inr l \<and>
        inputs1 (dataset l) = [[1, 2]] \<and>
        inputs2 (dataset l) = [[4]] \<and>
        targets (dataset l) = [[4]]"
    unfolding e2 d2 by auto
  have c': "\<And>rows h. length (sliding_windows rows h :: int list list) = Suc (length rows) - h"
    by (simp add: sliding_windows_def)
  have e3: "sliding_windows (iloc_until_neg 1 (map (\<lambda>r. r) [1, 2, 3, 4, 5 :: int])) 2 =
      [[1, 2], [2, 3], [3, 4]]"
    by code_simp
  have d3: "sliding_windows (drop 2 (map (\<lambda>r. r) [1, 2, 3, 4, 5 :: int])) 1 = [[3], [4], [5]]"
    by code_simp
  have equal: "(3::nat) = Suc (if (1::nat) = 0 then 0 else length [1, 2, 3, 4, 5 :: int] - 1) - 2"
    "(3::nat) = Suc (length [1, 2, 3, 4, 5 :: int] - 2) - 1"
    "(3::nat) = 3 \<or> (3::nat) = 3 + 1 \<or> (3::nat) + 1 = 3"
    by simp_all
  from make_dataloader_aligned [of sliding_windows "\<lambda>T h. Suc T - h", OF c' equal,
         of "\<lambda>r. r" "\<lambda>r. r" "\<lambda>r. r" 1 False]
  have w3: "\<exists>l. make_dataloader sliding_windows [1, 2, 3, 4, 5 :: int] (\<lambda>r. r) (\<lambda>r. r) (\<lambda>r. r)
           2 1 1 False True = Inr l \<and>
        inputs1 (dataset l) = [[1, 2], [2, 3], [3, 4]] \<and>
        inputs2 (dataset l) = [[3], [4], [5]] \<and>
        targets (dataset l) = [[3], [4], [5]]"
    unfolding e3 d3 by auto
  show ?thesis using w1 w2 w3 by blast
qed

subsection \<open>Properties of the metrics\<close>

lemma sum_list_upt: "sum_list (map f [0..<n]) = (\<Sum>i<n. f i)"
  by (simp add: interv_sum_list_conv_sum_set_nat atLeast0LessThan)

lemma mean_list_upt: "mean_list (map f [0..<n]) = mean_over n f"
  by (simp add: mean_list_def mean_over_def sum_list_upt)

lemma map_nth_upt: "length xs = n \<Longrightarrow> xs = map (\<lambda>i. xs ! i) [0..<n]"
  by (simp add: list_eq_iff_nth_eq)

lemma column_pos:
  fixes p r b n :: nat
  assumes "p < r" "b < n"
  shows "b * r + p < n * r"
proof -
  have "b * r + p < b * r + r" using assms(1) by simp
  also have "\<dots> = Suc b * r" by simp
  also have "\<dots> \<le> n * r" using assms(2) by (intro mult_le_mono1) simp
  finally show ?thesis .
qed

lemma column_map:
  assumes "p < r"
  shows "column (map f [0..<n * r]) n r p = map (\<lambda>b. f (b * r + p)) [0..<n]"
  unfolding column_def using column_pos[OF assms] by simp

lemma nll_terms_vals:
  assumes "wf_tensor target" "wf_tensor mu" "wf_tensor lv"
    and "shape mu = shape target" "shape lv = shape target"
  shows "vals (t_zip (+)
            (t_zip (/) (t_zip (\<lambda>y m. (y - m) ^ 2) target mu) (t_map (\<lambda>v. 2 * exp v) lv))
            (t_map (\<lambda>v. 0.5 * v) lv)) =
         map (\<lambda>i. gauss_nll_term (vals target ! i) (vals mu ! i) (vals lv ! i))
             [0..<prod_list (shape target)]"
  using assms
  by (simp add: list_eq_iff_nth_eq t_zip_def t_map_def wf_tensor_def gauss_nll_term_def)

lemma nll_gauss_unfold:
  assumes "shape mu = shape target" and "shape lv = shape target"
  shows "nll_gauss target [mu, lv] tot =
     (if tot then
        Inr (torch_mean (t_zip (+)
            (t_zip (/) (t_zip (\<lambda>y m. (y - m) ^ 2) target mu) (t_map (\<lambda>v. 2 * exp v) lv))
            (t_map (\<lambda>v. 0.5 * v) lv)))
      else
        Inr (torch_mean_dim0 (t_zip (+)
            (t_zip (/) (t_zip (\<lambda>y m. (y - m) ^ 2) target mu) (t_map (\<lambda>v. 2 * exp v) lv))
            (t_map (\<lambda>v. 0.5 * v) lv))))"
proof -
  have l: "length [mu, lv] = 2" by simp
  have n0: "[mu, lv] ! 0 = mu" by simp
  have n1: "[mu, lv] ! 1 = lv" by simp
  show ?thesis
    unfolding nll_gauss_def Let_def l n0 n1 assms
    by (simp only: simp_thms if_False)
qed

text \<open>
  C6. For well-formed target, expected-value and log-variance tensors of one shape,
  \<open>nll_gauss\<close> with \<open>total=True\<close> is the mean, over all positions, of the Gaussian term
  of the specification; with \<open>total=False\<close>, for a shape \<open>n # rest\<close>, it has the shape
  \<open>rest\<close> and at each remaining position (each forecast step, for each target variable)
  the mean of the term over the \<open>n\<close> windows of the batch only.
\<close>

theorem nll_gauss_formula:
  assumes "wf_tensor target" and "wf_tensor mu" and "wf_tensor lv"
    and "shape mu = shape target" and "shape lv = shape target"
  shows "nll_gauss target [mu, lv] True =
           Inr \<lparr>shape = [],
                vals = [mean_over (prod_list (shape target))
                          (\<lambda>i. gauss_nll_term (vals target ! i) (vals mu ! i) (vals lv ! i))]\<rparr> \<and>
         (\<forall>n rest. shape target = n # rest \<longrightarrow>
            nll_gauss target [mu, lv] False =
              Inr \<lparr>shape = rest,
                   vals = map (\<lambda>p. mean_over n
                                 (\<lambda>b. gauss_nll_term (vals target ! (b * prod_list rest + p))
                                                      (vals mu ! (b * prod_list rest + p))
                                                      (vals lv ! (b * prod_list rest + p))))
                              [0..<prod_list rest]\<rparr>)"
proof (intro conjI allI impI)
  let ?g = "\<lambda>i. gauss_nll_term (vals target ! i) (vals mu ! i) (vals lv ! i)"
  let ?terms = "t_zip (+)
            (t_zip (/) (t_zip (\<lambda>y m. (y - m) ^ 2) target mu) (t_map (\<lambda>v. 2 * exp v) lv))
            (t_map (\<lambda>v. 0.5 * v) lv)"
  have tv: "vals ?terms = map ?g [0..<prod_list (shape target)]"
    using assms by (rule nll_terms_vals)
  have "nll_gauss target [mu, lv] True = Inr (torch_mean ?terms)"
    by (simp only: nll_gauss_unfold[OF assms(4,5)] if_True)
  also have "torch_mean ?terms =
      \<lparr>shape = [], vals = [mean_over (prod_list (shape target)) ?g]\<rparr>"
    by (simp only: torch_mean_def tv mean_list_upt)
  finally show "nll_gauss target [mu, lv] True =
      Inr \<lparr>shape = [], vals = [mean_over (prod_list (shape target)) ?g]\<rparr>" .
next
  fix n rest
  assume sh: "shape target = n # rest"
  let ?r = "prod_list rest"
  let ?g = "\<lambda>i. gauss_nll_term (vals target ! i) (vals mu ! i) (vals lv ! i)"
  let ?terms = "t_zip (+)
            (t_zip (/) (t_zip (\<lambda>y m. (y - m) ^ 2) target mu) (t_map (\<lambda>v. 2 * exp v) lv))
            (t_map (\<lambda>v. 0.5 * v) lv)"
  have "vals ?terms = map ?g [0..<prod_list (shape target)]"
    using assms by (rule nll_terms_vals)
  then have tv: "vals ?terms = map ?g [0..<n * ?r]"
    by (simp only: sh prod_list.Cons)
  have ts: "shape ?terms = n # rest" by (simp only: t_zip_def tensor.simps sh)
  have "map (\<lambda>p. mean_list (column (vals ?terms) n ?r p)) [0..<?r] =
        map (\<lambda>p. mean_over n (\<lambda>b. ?g (b * ?r + p))) [0..<?r]"
  proof (rule map_cong)
    fix p assume "p \<in> set [0..<?r]"
    then have "p < ?r" by simp
    then show "mean_list (column (vals ?terms) n ?r p) = mean_over n (\<lambda>b. ?g (b * ?r + p))"
      by (simp only: tv column_map mean_list_upt)
  qed (rule refl)
  then have md: "torch_mean_dim0 ?terms =
      \<lparr>shape = rest, vals = map (\<lambda>p. mean_over n (\<lambda>b. ?g (b * ?r + p))) [0..<?r]\<rparr>"
    by (simp only: torch_mean_dim0_def ts list.case)
  have "nll_gauss target [mu, lv] False = Inr (torch_mean_dim0 ?terms)"
    by (simp only: nll_gauss_unfold[OF assms(4,5)] if_False)
  then show "nll_gauss target [mu, lv] False =
              Inr \<lparr>shape = rest,
                   vals = map (\<lambda>p. mean_over n
                                 (\<lambda>b. gauss_nll_term (vals target ! (b * prod_list rest + p))
                                                      (vals mu ! (b * prod_list rest + p))
                                                      (vals lv ! (b * prod_list rest + p))))
                              [0..<prod_list rest]\<rparr>"
    by (simp only: md)
qed

theorem nll_gauss_formula_witness:
  "nll_gauss \<lparr>shape = [2, 1, 1], vals = [1, 2]\<rparr>
     [\<lparr>shape = [2, 1, 1], vals = [1, 3]\<rparr>, \<lparr>shape = [2, 1, 1], vals = [0, 0]\<rparr>] True =
     Inr \<lparr>shape = [], vals = [Some (1 / 4)]\<rparr> \<and>
   nll_gauss \<lparr>shape = [2, 1, 1], vals = [1, 2]\<rparr>
     [\<lparr>shape = [2, 1, 1], vals = [1, 3]\<rparr>, \<lparr>shape = [2, 1, 1], vals = [0, 0]\<rparr>] False =
     Inr \<lparr>shape = [1, 1], vals = [Some (1 / 4)]\<rparr>"
  using nll_gauss_formula
    [of "\<lparr>shape = [2, 1, 1], vals = [1, 2]\<rparr>" "\<lparr>shape = [2, 1, 1], vals = [1, 3]\<rparr>"
        "\<lparr>shape = [2, 1, 1], vals = [0, 0]\<rparr>"]
  by (simp add: wf_tensor_def mean_over_def gauss_nll_term_def lessThan_Suc eval_nat_numeral)

lemma foldl_opt_add_Some:
  "foldl opt_add (Some a) (map Some xs) = Some (a + sum_list xs)"
  by (induction xs arbitrary: a) (simp_all add: opt_add_def add.assoc)

lemma opt_sum_Some: "opt_sum (map Some xs) = Some (sum_list xs)"
  by (simp add: opt_sum_def foldl_opt_add_Some)

lemma sum_list_indicator:
  "sum_list (map (\<lambda>b. if P b then 1 else 0) xs) = real (length (filter P xs))"
  by (induction xs) simp_all

lemma covered_vals:
  assumes "wf_tensor target" "wf_tensor upper" "wf_tensor lower"
    and "shape upper = shape target" "shape lower = shape target"
  shows "vals (t_map (\<lambda>c. if c then 1 else 0)
            (t_zip (\<and>) (t_zip (\<lambda>y l. l < y) target lower) (t_zip (\<lambda>y u. y \<le> u) target upper))) =
         map (\<lambda>i. if covered (vals target ! i) (vals upper ! i) (vals lower ! i) then 1 else (0::real))
             [0..<prod_list (shape target)]"
  using assms
  by (simp add: list_eq_iff_nth_eq t_zip_def t_map_def wf_tensor_def covered_def)

lemma t_binop_same: "shape a = shape b \<Longrightarrow> t_binop f a b = Inr (t_zip f a b)"
  by (simp add: t_binop_def)

lemma picp_unfold:
  assumes "shape upper = shape target" and "shape lower = shape target"
    and "shape target = n # h # ks"
  shows "picp target [upper, lower] tot =
     (let coverage_horizon =
            t_map (\<lambda>x. div_dim x n)
              (t_map (\<lambda>c. 100 * c)
                 (torch_sum_dim0
                    (t_map (\<lambda>c. if c then 1 else 0)
                       (t_zip (\<and>) (t_zip (\<lambda>y l. l < y) target lower)
                                    (t_zip (\<lambda>y u. y \<le> u) target upper)))))
      in if tot then
           Inr \<lparr>shape = [],
                vals = [case opt_sum (vals coverage_horizon) of
                          None \<Rightarrow> None
                        | Some s \<Rightarrow> div_dim s h]\<rparr>
         else Inr coverage_horizon)"
proof -
  have l: "length [upper, lower] = 2" by simp
  have n0: "[upper, lower] ! 0 = upper" by simp
  have n1: "[upper, lower] ! 1 = lower" by simp
  have b1: "t_binop (\<lambda>y l. l < y) target lower = Inr (t_zip (\<lambda>y l. l < y) target lower)"
    by (rule t_binop_same) (simp only: assms(2))
  have b2: "t_binop (\<lambda>y u. y \<le> u) target upper = Inr (t_zip (\<lambda>y u. y \<le> u) target upper)"
    by (rule t_binop_same) (simp only: assms(1))
  have b3: "t_binop (\<and>) (t_zip (\<lambda>y l. l < y) target lower) (t_zip (\<lambda>y u. y \<le> u) target upper) =
      Inr (t_zip (\<and>) (t_zip (\<lambda>y l. l < y) target lower) (t_zip (\<lambda>y u. y \<le> u) target upper))"
    by (rule t_binop_same) (simp only: t_zip_def tensor.simps)
  show ?thesis
    unfolding picp_def l n0 n1 Let_def
    by (simp only: b1 b2 b3 assms(3) simp_thms if_False sum.case list.case)
qed

lemma vals_t_map2: "vals (t_map f (t_map g t)) = map f (map g (vals t))"
  by (simp add: t_map_def)

lemma coverage_horizon_vals:
  assumes "wf_tensor target" "wf_tensor upper" "wf_tensor lower"
    and "shape upper = shape target" "shape lower = shape target"
    and "shape target = n # h # ks" "prod_list ks = 1" "0 < n"
  shows "vals (t_map (\<lambda>x. div_dim x n)
              (t_map (\<lambda>c. 100 * c)
                 (torch_sum_dim0
                    (t_map (\<lambda>c. if c then 1 else 0)
                       (t_zip (\<and>) (t_zip (\<lambda>y l. l < y) target lower)
                                    (t_zip (\<lambda>y u. y \<le> u) target upper)))))) =
         map (\<lambda>p. Some (step_coverage (vals target) (vals upper) (vals lower) n h p)) [0..<h]"
proof -
  let ?C = "t_map (\<lambda>c. if c then 1 else (0::real))
              (t_zip (\<and>) (t_zip (\<lambda>y l. l < y) target lower) (t_zip (\<lambda>y u. y \<le> u) target upper))"
  let ?g = "\<lambda>i. if covered (vals target ! i) (vals upper ! i) (vals lower ! i) then 1 else (0::real)"
  have pl: "prod_list (shape target) = n * h" using assms(6,7) by simp
  have ph: "prod_list (h # ks) = h" using assms(7) by simp
  have cv: "vals ?C = map ?g [0..<n * h]"
    using covered_vals[OF assms(1-5)] by (simp only: pl)
  have cs: "shape ?C = n # h # ks" by (simp add: t_map_def t_zip_def assms(6))
  have col: "sum_list (column (vals ?C) n h p) =
      real (length (filter (\<lambda>b. covered (vals target ! (b * h + p)) (vals upper ! (b * h + p))
                                          (vals lower ! (b * h + p))) [0..<n]))"
    if "p < h" for p
    by (simp only: cv column_map[OF that] sum_list_indicator)
  have sd: "torch_sum_dim0 ?C =
      \<lparr>shape = h # ks, vals = map (\<lambda>p. sum_list (column (vals ?C) n h p)) [0..<h]\<rparr>"
    by (simp only: torch_sum_dim0_def cs list.case ph)
  have vs: "vals (torch_sum_dim0 ?C) = map (\<lambda>p. sum_list (column (vals ?C) n h p)) [0..<h]"
    by (simp only: sd tensor.simps)
  have "vals (t_map (\<lambda>x. div_dim x n) (t_map (\<lambda>c. 100 * c) (torch_sum_dim0 ?C))) =
      map (\<lambda>x. div_dim x n) (map (\<lambda>c. 100 * c) (vals (torch_sum_dim0 ?C)))"
    by (rule vals_t_map2)
  also have "\<dots> = map (\<lambda>p. div_dim (100 * sum_list (column (vals ?C) n h p)) n) [0..<h]"
    by (simp only: vs map_map o_def)
  also have "\<dots> = map (\<lambda>p. Some (step_coverage (vals target) (vals upper) (vals lower) n h p)) [0..<h]"
  proof (rule map_cong)
    fix p assume "p \<in> set [0..<h]"
    then have "p < h" by simp
    then show "div_dim (100 * sum_list (column (vals ?C) n h p)) n =
        Some (step_coverage (vals target) (vals upper) (vals lower) n h p)"
      using assms(8) by (simp add: col div_dim_def step_coverage_def)
  qed (rule refl)
  finally show ?thesis .
qed

lemma step_coverage_bounds:
  assumes "0 < n"
  shows "0 \<le> step_coverage ys us ls n h p" and "step_coverage ys us ls n h p \<le> 100"
proof -
  let ?c = "length (filter (\<lambda>b. covered (ys ! (b * h + p)) (us ! (b * h + p)) (ls ! (b * h + p))) [0..<n])"
  have "?c \<le> length [0..<n]" by (rule length_filter_le)
  then have le: "real ?c \<le> real n" by simp
  show "0 \<le> step_coverage ys us ls n h p" by (simp add: step_coverage_def)
  have "100 * real ?c / real n \<le> 100 * real n / real n"
    using le assms by (intro divide_right_mono mult_left_mono) simp_all
  then show "step_coverage ys us ls n h p \<le> 100" using assms by (simp add: step_coverage_def)
qed

lemma step_coverage_full:
  assumes "0 < n" "p < h"
    and "\<forall>i<n * h. ls ! i < ys ! i \<and> ys ! i < us ! i"
  shows "step_coverage ys us ls n h p = 100"
proof -
  have "filter (\<lambda>b. covered (ys ! (b * h + p)) (us ! (b * h + p)) (ls ! (b * h + p))) [0..<n] = [0..<n]"
  proof (rule filter_True, clarify)
    fix b assume "b \<in> set [0..<n]"
    then have "b < n" by simp
    then have "b * h + p < n * h" using assms(2) by (intro column_pos)
    then show "covered (ys ! (b * h + p)) (us ! (b * h + p)) (ls ! (b * h + p))"
      using assms(3) by (auto simp: covered_def intro: less_imp_le)
  qed
  then show ?thesis using assms(1) by (simp add: step_coverage_def)
qed

text \<open>
  C7 (as amended). For well-formed target, upper and lower tensors of one shape with
  \<open>n > 0\<close> windows, \<open>h > 0\<close> forecast steps and a single target variable, \<open>picp\<close> with
  \<open>total=True\<close> is the mean over the steps of the per-step coverage, where a target is
  covered when it lies in \<open>(lower, upper]\<close>; it lies in \<open>[0, 100]\<close>, and it is 100 when
  every target lies strictly between its bounds.
\<close>

theorem picp_single_target:
  assumes "wf_tensor target" and "wf_tensor upper" and "wf_tensor lower"
    and "shape upper = shape target" and "shape lower = shape target"
    and "shape target = n # h # ks" and "prod_list ks = 1" and "0 < n" and "0 < h"
  shows "\<exists>v. picp target [upper, lower] True = Inr \<lparr>shape = [], vals = [Some v]\<rparr> \<and>
           v = (\<Sum>p<h. step_coverage (vals target) (vals upper) (vals lower) n h p) / real h \<and>
           0 \<le> v \<and> v \<le> 100 \<and>
           ((\<forall>i<n * h. vals lower ! i < vals target ! i \<and> vals target ! i < vals upper ! i)
              \<longrightarrow> v = 100)"
proof -
  let ?sc = "step_coverage (vals target) (vals upper) (vals lower) n h"
  let ?v = "(\<Sum>p<h. ?sc p) / real h"
  have chv: "vals (t_map (\<lambda>x. div_dim x n)
              (t_map (\<lambda>c. 100 * c)
                 (torch_sum_dim0
                    (t_map (\<lambda>c. if c then 1 else 0)
                       (t_zip (\<and>) (t_zip (\<lambda>y l. l < y) target lower)
                                    (t_zip (\<lambda>y u. y \<le> u) target upper)))))) =
         map (\<lambda>p. Some (?sc p)) [0..<h]"
    using assms(1-8) by (rule coverage_horizon_vals)
  have os: "opt_sum (map (\<lambda>p. Some (?sc p)) [0..<h]) = Some (\<Sum>p<h. ?sc p)"
    using opt_sum_Some[of "map ?sc [0..<h]"] by (simp add: o_def sum_list_upt)
  have dd: "div_dim (\<Sum>p<h. ?sc p) h = Some ?v" using assms(9) by (simp add: div_dim_def)
  have eq: "picp target [upper, lower] True = Inr \<lparr>shape = [], vals = [Some ?v]\<rparr>"
    by (simp only: picp_unfold[OF assms(4,5,6)] Let_def if_True chv os option.case dd)
  have lo: "0 \<le> ?v"
    using step_coverage_bounds(1)[OF assms(8)] by (intro divide_nonneg_nonneg sum_nonneg) simp_all
  have "(\<Sum>p<h. ?sc p) \<le> (\<Sum>p<h. 100)"
    using step_coverage_bounds(2)[OF assms(8)] by (intro sum_mono)
  then have "(\<Sum>p<h. ?sc p) \<le> 100 * real h" by simp
  then have hi: "?v \<le> 100" using assms(9) by (simp add: divide_le_eq)
  have full: "?v = 100"
    if "\<forall>i<n * h. vals lower ! i < vals target ! i \<and> vals target ! i < vals upper ! i"
  proof -
    have "(\<Sum>p<h. ?sc p) = (\<Sum>p<h. 100)"
      using step_coverage_full[OF assms(8) _ that] by (intro sum.cong) simp_all
    then show ?thesis using assms(9) by simp
  qed
  show ?thesis using eq lo hi full by blast
qed

theorem picp_single_target_witness:
  "\<exists>v. picp \<lparr>shape = [2, 2, 1], vals = [1, 2, 3, 4]\<rparr>
          [\<lparr>shape = [2, 2, 1], vals = [1, 2, 3, 3]\<rparr>, \<lparr>shape = [2, 2, 1], vals = [0, 2, 0, 0]\<rparr>]
          True = Inr \<lparr>shape = [], vals = [Some v]\<rparr> \<and> v = 50 \<and> 0 \<le> v \<and> v \<le> 100"
  using picp_single_target
    [of "\<lparr>shape = [2, 2, 1], vals = [1, 2, 3, 4]\<rparr>" "\<lparr>shape = [2, 2, 1], vals = [1, 2, 3, 3]\<rparr>"
        "\<lparr>shape = [2, 2, 1], vals = [0, 2, 0, 0]\<rparr>" 2 2 "[1]"]
  by (simp add: wf_tensor_def step_coverage_def covered_def lessThan_Suc eval_nat_numeral upt_conv_Cons)

text \<open>
  With two target variables the sum over the reduced tensor runs over both of them and
  is divided by the number of steps only: one window, one step, both targets strictly
  inside their intervals, and the result is 200.
\<close>

theorem picp_two_targets_counterexample:
  "picp \<lparr>shape = [1, 1, 2], vals = [1, 2]\<rparr>
     [\<lparr>shape = [1, 1, 2], vals = [2, 3]\<rparr>, \<lparr>shape = [1, 1, 2], vals = [0, 0]\<rparr>] True =
   Inr \<lparr>shape = [], vals = [Some 200]\<rparr>"
  by code_simp

text \<open>
  C5 (as amended). With \<open>total=False\<close>, \<open>pinball_loss\<close> raises NotImplementedError for
  every target, prediction list and quantile list; \<open>crps_gaussian\<close> raises
  NotImplementedError when it is given exactly two predictions and AssertionError
  otherwise, its assertion on the list coming first; neither returns a value.
\<close>

theorem total_false_not_supported:
  "pinball_loss target predictions quantiles False = Inl NotImplementedError \<and>
   crps_gaussian cdf target predictions False =
     (if length predictions = 2 then Inl NotImplementedError else Inl AssertionError) \<and>
   (\<forall>v. pinball_loss target predictions quantiles False \<noteq> Inr v) \<and>
   (\<forall>v. crps_gaussian cdf target predictions False \<noteq> Inr v)"
  by (simp add: pinball_loss_def crps_gaussian_def Let_def)

theorem total_false_not_supported_witness:
  "pinball_loss \<lparr>shape = [1], vals = [0]\<rparr> [\<lparr>shape = [1], vals = [0]\<rparr>] [1 / 2] False =
     Inl NotImplementedError \<and>
   crps_gaussian (\<lambda>x. 0) \<lparr>shape = [1], vals = [0]\<rparr>
     [\<lparr>shape = [1], vals = [0]\<rparr>, \<lparr>shape = [1], vals = [0]\<rparr>] False = Inl NotImplementedError"
  using total_false_not_supported
    [of "\<lparr>shape = [1], vals = [0]\<rparr>" "[\<lparr>shape = [1], vals = [0]\<rparr>]" "[1 / 2]"]
    total_false_not_supported
    [of "\<lparr>shape = [1], vals = [0]\<rparr>"
        "[\<lparr>shape = [1], vals = [0]\<rparr>, \<lparr>shape = [1], vals = [0]\<rparr>]" "[]" "\<lambda>x. 0"]
  by simp

text \<open>
  A prediction list of one tensor: \<open>crps_gaussian\<close> with \<open>total=False\<close> fails its
  assertion and does not reach the NotImplementedError.
\<close>

theorem crps_gaussian_assert_first_counterexample:
  "crps_gaussian (\<lambda>x. 0) \<lparr>shape = [1], vals = [0]\<rparr> [\<lparr>shape = [1], vals = [0]\<rparr>] False =
     Inl AssertionError \<and>
   crps_gaussian (\<lambda>x. 0) \<lparr>shape = [1], vals = [0]\<rparr> [\<lparr>shape = [1], vals = [0]\<rparr>] False \<noteq>
     Inl NotImplementedError"
  by (simp add: crps_gaussian_def)

lemma map2_same: "map2 f xs xs = map (\<lambda>x. f x x) xs"
  by (simp add: zip_same_conv_map)

lemma self_squared_errors:
  "t_zip (\<lambda>y p. (y - p) ^ 2) target target =
     \<lparr>shape = shape target, vals = replicate (length (vals target)) (0::real)\<rparr>"
  by (simp add: t_zip_def map2_same map_replicate_const)

lemma column_replicate:
  assumes "p < r"
  shows "column (replicate (n * r) x) n r p = replicate n x"
proof -
  have "column (replicate (n * r) x) n r p = map (\<lambda>b. x) [0..<n]"
    unfolding column_def using column_pos[OF assms] by simp
  then show ?thesis by (simp add: map_replicate_const)
qed

lemma sum_list_zeros: "sum_list (replicate n (0::real)) = 0"
  by (induction n) simp_all

lemma mean_list_zeros: "0 < n \<Longrightarrow> mean_list (replicate n 0) = Some 0"
  by (simp add: mean_list_def sum_list_zeros)

text \<open>
  C8 (as amended). \<open>rmse\<close> is the square root of \<open>mse\<close> for every target, prediction
  list and value of \<open>total\<close> (errors included). For every target tensor that is not
  empty, \<open>mse(target, [target])\<close> is 0, and in the per-step form it is 0 at every
  position.
\<close>

theorem mse_self_and_rmse:
  "rmse target predictions tot =
     (case mse target predictions tot of
        Inl e \<Rightarrow> Inl e
      | Inr m \<Rightarrow> Inr (t_map (map_option sqrt) m)) \<and>
   (vals target \<noteq> [] \<longrightarrow>
      mse target [target] True = Inr \<lparr>shape = [], vals = [Some 0]\<rparr>) \<and>
   (wf_tensor target \<and> vals target \<noteq> [] \<longrightarrow>
      (\<forall>n rest. shape target = n # rest \<longrightarrow>
         mse target [target] False =
           Inr \<lparr>shape = rest, vals = replicate (prod_list rest) (Some 0)\<rparr>))"
proof (intro conjI impI allI)
  show "rmse target predictions tot =
     (case mse target predictions tot of
        Inl e \<Rightarrow> Inl e
      | Inr m \<Rightarrow> Inr (t_map (map_option sqrt) m))"
    by (simp add: rmse_def mse_def Let_def split: list.splits)
next
  assume "vals target \<noteq> []"
  then have "mean_list (replicate (length (vals target)) 0) = Some 0"
    by (intro mean_list_zeros) simp
  then show "mse target [target] True = Inr \<lparr>shape = [], vals = [Some 0]\<rparr>"
    by (simp add: mse_def Let_def self_squared_errors torch_mean_def)
next
  fix n rest
  assume a: "wf_tensor target \<and> vals target \<noteq> []" and sh: "shape target = n # rest"
  let ?r = "prod_list rest"
  have len: "length (vals target) = n * ?r" using a sh by (simp add: wf_tensor_def)
  then have n: "0 < n" using a by (cases n) auto
  have "map (\<lambda>p. mean_list (column (replicate (n * ?r) 0) n ?r p)) [0..<?r] =
        map (\<lambda>p. Some 0) [0..<?r]"
    by (rule map_cong) (simp_all add: column_replicate mean_list_zeros n)
  then have "torch_mean_dim0 \<lparr>shape = n # rest, vals = replicate (n * ?r) (0::real)\<rparr> =
      \<lparr>shape = rest, vals = replicate ?r (Some 0)\<rparr>"
    by (simp add: torch_mean_dim0_def map_replicate_const)
  then show "mse target [target] False =
      Inr \<lparr>shape = rest, vals = replicate (prod_list rest) (Some 0)\<rparr>"
    by (simp add: mse_def Let_def self_squared_errors sh len)
qed

theorem mse_self_and_rmse_witness:
  "rmse \<lparr>shape = [2, 1, 1], vals = [1, 2]\<rparr> [\<lparr>shape = [2, 1, 1], vals = [1, 4]\<rparr>] True =
     (case mse \<lparr>shape = [2, 1, 1], vals = [1, 2]\<rparr> [\<lparr>shape = [2, 1, 1], vals = [1, 4]\<rparr>] True of
        Inl e \<Rightarrow> Inl e
      | Inr m \<Rightarrow> Inr (t_map (map_option sqrt) m)) \<and>
   mse \<lparr>shape = [2, 1, 1], vals = [1, 2]\<rparr> [\<lparr>shape = [2, 1, 1], vals = [1, 2]\<rparr>] True =
     Inr \<lparr>shape = [], vals = [Some 0]\<rparr> \<and>
   mse \<lparr>shape = [2, 1, 1], vals = [1, 2]\<rparr> [\<lparr>shape = [2, 1, 1], vals = [1, 2]\<rparr>] False =
     Inr \<lparr>shape = [1, 1], vals = [Some 0]\<rparr>"
  using mse_self_and_rmse
    [of "\<lparr>shape = [2, 1, 1], vals = [1, 2]\<rparr>" "[\<lparr>shape = [2, 1, 1], vals = [1, 4]\<rparr>]" True]
    mse_self_and_rmse
    [of "\<lparr>shape = [2, 1, 1], vals = [1, 2]\<rparr>" "[]" True]
  by (simp add: wf_tensor_def)

text \<open>
  On a target with no windows the mean is 0/0: \<open>mse(target, [target])\<close> is not 0.
\<close>

theorem mse_empty_counterexample:
  "mse \<lparr>shape = [0, 2, 1], vals = []\<rparr> [\<lparr>shape = [0, 2, 1], vals = []\<rparr>] True =
     Inr \<lparr>shape = [], vals = [None]\<rparr> \<and>
   mse \<lparr>shape = [0, 2, 1], vals = []\<rparr> [\<lparr>shape = [0, 2, 1], vals = []\<rparr>] True \<noteq>
     Inr \<lparr>shape = [], vals = [Some 0]\<rparr>"
  by (simp add: mse_def t_zip_def torch_mean_def mean_list_def)

subsection \<open>Properties of the training loop\<close>





lemma f_less_PosInf_iff: "f_less a PosInf \<longleftrightarrow> a \<noteq> NaN \<and> a \<noteq> PosInf"
  by (cases a) simp_all

lemma f_sub_PosInf: "f_sub PosInf eps = PosInf"
  by simp

lemma state_after_Suc_fst:
  "fst (state_after fit validate net aux (Suc k)) =
     fst (fit (fst (state_after fit validate net aux k)) (snd (state_after fit validate net aux k)))"
  by (simp add: Let_def)

lemma val_loss_at_Suc:
  "val_loss_at fit validate net aux (Suc k) =
     fst (validate
            (fst (fit (fst (state_after fit validate net aux k)) (snd (state_after fit validate net aux k))))
            (snd (fit (fst (state_after fit validate net aux k)) (snd (state_after fit validate net aux k)))))"
  by (simp add: val_loss_at_def Let_def)













subsection \<open>Properties of the run controller\<close>

lemma decide_min_net:
  "min_net (fst (decide ci ask1 ask2 study_best trial_params net loss new_score st)) =
     (if score_improved (par_best_score (par st)) new_score then Some net else min_net st)"
  by (simp add: decide_def Let_def split: sum.splits)

lemma finally_block_saves:
  "SaveModel m \<in> set (finally_block has_log st) \<longleftrightarrow> min_net st = Some m"
  by (auto simp: finally_block_def split: option.splits)

text \<open>
  C9 (as amended). When \<open>train\<close> has returned a network and its test score, the end of
  \<open>main\<close> writes the model file if and only if the previous best score, plus infinity
  if there is none, is greater than the new score as floats compare. Without a previous
  score the model is written exactly when the new score is neither NaN nor plus
  infinity. Otherwise no model at all is written. The answers to the prompts, and an
  interrupt at a prompt, do not change this.
\<close>

theorem main_end_persists_iff_improved:
  "(SaveModel net \<in> set (fst (main_end ci ask1 ask2 study_best trial_params has_log p
                                    (Inr (net, loss, new_score))))
      \<longleftrightarrow> f_less new_score (case par_best_score p of None \<Rightarrow> PosInf | Some s \<Rightarrow> s)) \<and>
   (par_best_score p = None \<longrightarrow>
      (SaveModel net \<in> set (fst (main_end ci ask1 ask2 study_best trial_params has_log p
                                      (Inr (net, loss, new_score))))
        \<longleftrightarrow> new_score \<noteq> NaN \<and> new_score \<noteq> PosInf)) \<and>
   (\<not> f_less new_score (case par_best_score p of None \<Rightarrow> PosInf | Some s \<Rightarrow> s) \<longrightarrow>
      (\<forall>m. SaveModel m \<notin> set (fst (main_end ci ask1 ask2 study_best trial_params has_log p
                                          (Inr (net, loss, new_score))))))"
proof -
  let ?st0 = "\<lparr>par = p, min_net = None\<rparr> :: ('a, 'b) run_state"
  let ?base = "case par_best_score p of None \<Rightarrow> PosInf | Some s \<Rightarrow> s"
  have written: "fst (main_end ci ask1 ask2 study_best trial_params has_log p
                        (Inr (net, loss, new_score))) =
      finally_block has_log
        (fst (decide ci ask1 ask2 study_best trial_params net loss new_score ?st0))"
    by (simp add: main_end_def Let_def)
  have mn: "min_net (fst (decide ci ask1 ask2 study_best trial_params net loss new_score ?st0)) =
      (if f_less new_score ?base then Some net else None)"
    by (simp add: decide_min_net score_improved_def)
  have inf: "f_less new_score PosInf \<longleftrightarrow> new_score \<noteq> NaN \<and> new_score \<noteq> PosInf"
    by (cases new_score) simp_all
  show ?thesis
    using inf by (auto simp: written finally_block_saves mn)
qed

theorem main_end_persists_iff_improved_witness:
  "SaveModel (1::int) \<in> set (fst (main_end False (Inr True) (Inr True) (Fin 0) () True
      \<lparr>par_best_score = Some (Fin 5), par_best_loss = None, par_exploration = True,
       par_hyper_params = ()\<rparr> (Inr (1, Fin 2, Fin 3)))) \<and>
   (\<forall>m. SaveModel (m::int) \<notin> set (fst (main_end False (Inr True) (Inr True) (Fin 0) () True
      \<lparr>par_best_score = Some (Fin 5), par_best_loss = None, par_exploration = True,
       par_hyper_params = ()\<rparr> (Inr (1, Fin 2, Fin 7))))) \<and>
   SaveModel (1::int) \<in> set (fst (main_end False (Inr True) (Inr True) (Fin 0) () True
      \<lparr>par_best_score = None, par_best_loss = None, par_exploration = True,
       par_hyper_params = ()\<rparr> (Inr (1, Fin 2, Fin 3))))"
  using main_end_persists_iff_improved
    [of "1::int" False "Inr True" "Inr True" "Fin 0" "()" True
        "\<lparr>par_best_score = Some (Fin 5), par_best_loss = None, par_exploration = True,
          par_hyper_params = ()\<rparr>" "Fin 2" "Fin 3"]
    main_end_persists_iff_improved
    [of "1::int" False "Inr True" "Inr True" "Fin 0" "()" True
        "\<lparr>par_best_score = Some (Fin 5), par_best_loss = None, par_exploration = True,
          par_hyper_params = ()\<rparr>" "Fin 2" "Fin 7"]
    main_end_persists_iff_improved
    [of "1::int" False "Inr True" "Inr True" "Fin 0" "()" True
        "\<lparr>par_best_score = None, par_best_loss = None, par_exploration = True,
          par_hyper_params = ()\<rparr>" "Fin 2" "Fin 3"]
  by simp

text \<open>
  A run without a previous score whose test score is NaN: \<open>np.inf > nan\<close> is false, the
  model is not written, and only the log is.
\<close>

theorem no_baseline_nan_score_counterexample:
  "(\<forall>m. SaveModel (m::int) \<notin> set (fst (main_end False (Inr True) (Inr True) (Fin 0) () True
      \<lparr>par_best_score = None, par_best_loss = None, par_exploration = False,
       par_hyper_params = ()\<rparr> (Inr (1, Fin 2, NaN))))) \<and>
   main_end False (Inr True) (Inr True) (Fin 0) () True
      \<lparr>par_best_score = None, par_best_loss = None, par_exploration = False,
       par_hyper_params = ()\<rparr> (Inr (1::int, Fin 2, NaN)) = ([WriteLog], None)"
  by (simp add: main_end_def decide_def score_improved_def finally_block_def)

end
